theory Spec2Isabelle
  imports Main
begin

section \<open>Values of the host language\<close>

text \<open>
  An inbound message is whatever \<^verbatim>\<open>JSON.parse\<close> returns. Numbers are restricted to
  integers (channel ids, info codes, correlation ids and timestamps are integers on this
  wire). A JavaScript value that may be \<^verbatim>\<open>undefined\<close> is a \<open>json option\<close>, with
  \<open>None\<close> for \<^verbatim>\<open>undefined\<close>.
\<close>

datatype json =
    JNull
  | JBool bool
  | JNumber int
  | JString string
  | JArray "json list"
  | JObject "(string \<times> json) list"

type_synonym jsval = "json option"

text \<open>
  \<^verbatim>\<open>msg.key\<close> for a message that is not \<^verbatim>\<open>null\<close> and a key that is neither an array
  index nor \<^verbatim>\<open>length\<close> (the source reads \<^verbatim>\<open>event\<close>, \<^verbatim>\<open>version\<close>, \<^verbatim>\<open>cid\<close>, \<^verbatim>\<open>pair\<close>,
  \<^verbatim>\<open>chanId\<close>, \<^verbatim>\<open>code\<close> and \<^verbatim>\<open>ts\<close>): an object yields its own property, where the last
  occurrence of a duplicated key wins as in \<^verbatim>\<open>JSON.parse\<close>; every other value yields
  \<^verbatim>\<open>undefined\<close>.
\<close>

fun get_prop :: "string \<Rightarrow> json \<Rightarrow> jsval" where
  "get_prop k (JObject fs) = map_of (rev fs) k"
| "get_prop k _ = None"

text \<open>\<^verbatim>\<open>msg[0]\<close> and \<^verbatim>\<open>msg[1]\<close>, the only indexed reads of the source.\<close>

fun elem0 :: "json \<Rightarrow> jsval" where
  "elem0 (JArray xs) = (case xs of [] \<Rightarrow> None | x # _ \<Rightarrow> Some x)"
| "elem0 (JObject fs) = map_of (rev fs) ''0''"
| "elem0 (JString s) = (case s of [] \<Rightarrow> None | c # _ \<Rightarrow> Some (JString [c]))"
| "elem0 _ = None"

fun elem1 :: "json \<Rightarrow> jsval" where
  "elem1 (JArray xs) = (case xs of x # y # _ \<Rightarrow> Some y | _ \<Rightarrow> None)"
| "elem1 (JObject fs) = map_of (rev fs) ''1''"
| "elem1 (JString s) = (case s of c # d # _ \<Rightarrow> Some (JString [d]) | _ \<Rightarrow> None)"
| "elem1 _ = None"

text \<open>
  Strict equality \<^verbatim>\<open>===\<close>: primitives compare by value; an array or an object is equal
  only to itself, and a freshly parsed one is never the same object as any other value.
\<close>

fun strict_eq :: "json \<Rightarrow> json \<Rightarrow> bool" where
  "strict_eq (JArray _) _ = False"
| "strict_eq (JObject _) _ = False"
| "strict_eq a b = (a = b)"

fun js_eq :: "jsval \<Rightarrow> jsval \<Rightarrow> bool" where
  "js_eq None None = True"
| "js_eq (Some a) (Some b) = strict_eq a b"
| "js_eq _ _ = False"

fun truthy :: "jsval \<Rightarrow> bool" where
  "truthy None = False"
| "truthy (Some JNull) = False"
| "truthy (Some (JBool b)) = b"
| "truthy (Some (JNumber n)) = (n \<noteq> 0)"
| "truthy (Some (JString s)) = (s \<noteq> [])"
| "truthy (Some (JArray _)) = True"
| "truthy (Some (JObject _)) = True"

text \<open>\<^verbatim>\<open>Array.prototype.indexOf\<close>: the first position equal under \<^verbatim>\<open>===\<close>, or \<open>-1\<close>.\<close>

fun indexOf :: "json list \<Rightarrow> jsval \<Rightarrow> int" where
  "indexOf [] v = -1"
| "indexOf (x # xs) v =
     (if js_eq (Some x) v then 0
      else (let i = indexOf xs v in if i = -1 then -1 else i + 1))"

text \<open>\<^verbatim>\<open>Array.prototype.findIndex\<close>: the first position where the test holds, or \<open>-1\<close>.\<close>

fun findIndex :: "('a \<Rightarrow> bool) \<Rightarrow> 'a list \<Rightarrow> int" where
  "findIndex P [] = -1"
| "findIndex P (x # xs) =
     (if P x then 0
      else (let i = findIndex P xs in if i = -1 then -1 else i + 1))"

text \<open>
  \<^verbatim>\<open>Array.prototype.forEach\<close> over a fixed sequence of elements, the callback run for its
  effect on the program state; a callback that throws ends the loop with that exception.
\<close>

fun forEach :: "('a \<Rightarrow> 's \<Rightarrow> 'e + 's) \<Rightarrow> 'a list \<Rightarrow> 's \<Rightarrow> 'e + 's" where
  "forEach f [] s = Inr s"
| "forEach f (x # xs) s = (case f x s of Inl e \<Rightarrow> Inl e | Inr s' \<Rightarrow> forEach f xs s')"

section \<open>Objects whose methods run callbacks\<close>

text \<open>
  \<^verbatim>\<open>fire\<close> and \<^verbatim>\<open>exec\<close> invoke closures, and a closure may reach the very object whose
  method is running (a deferred send enqueues on the queue that is firing; an
  acknowledgment handler registers expectations in the registry that is dispatching).
  Such a method therefore works on the whole program state \<open>'s\<close>, and \<^verbatim>\<open>this\<close> is a
  reference into it: how to read the object and how to store it back.
\<close>

record ('s, 'o) objref =
  deref :: "'s \<Rightarrow> 'o"
  assign :: "'o \<Rightarrow> 's \<Rightarrow> 's"

section \<open>ActionsStack\<close>

record 'a ActionsStack =
  stack :: "'a list"

definition reject :: "'a ActionsStack \<Rightarrow> 'a ActionsStack" where
  "reject q = q\<lparr>stack := []\<rparr>"

text \<open>The constructor: \<^verbatim>\<open>this.reject()\<close> on the new object.\<close>

definition new_ActionsStack :: "'a ActionsStack" where
  "new_ActionsStack = reject \<lparr>stack = []\<rparr>"

text \<open>\<^verbatim>\<open>add\<close> returns what \<^verbatim>\<open>push\<close> returns, the new length.\<close>

definition add :: "'a \<Rightarrow> 'a ActionsStack \<Rightarrow> nat \<times> 'a ActionsStack" where
  "add action q = (length (stack q) + 1, q\<lparr>stack := stack q @ [action]\<rparr>)"

text \<open>
  \<^verbatim>\<open>fire\<close>: \<^verbatim>\<open>this.stack.forEach(action => action()); this.reject()\<close>.
  \<^verbatim>\<open>forEach\<close> reads the length of the array once, before the first call, and visits the
  indices below it. The class changes an array only by \<^verbatim>\<open>push\<close> (in \<^verbatim>\<open>add\<close>) and
  otherwise replaces it by a new one (in \<^verbatim>\<open>reject\<close>), so the elements visited are those
  the array held when \<^verbatim>\<open>fire\<close> was called, whatever the actions do meanwhile. \<open>run\<close>
  gives the effect of calling an action. An action that throws leaves \<^verbatim>\<open>fire\<close> before
  \<^verbatim>\<open>reject\<close>.
\<close>

definition fire ::
  "('s, 'a ActionsStack) objref \<Rightarrow> ('a \<Rightarrow> 's \<Rightarrow> 'e + 's) \<Rightarrow> 's \<Rightarrow> 'e + 's" where
  "fire this run s =
     (case forEach run (stack (deref this s)) s of
        Inl e \<Rightarrow> Inl e
      | Inr s' \<Rightarrow> Inr (assign this (reject (deref this s')) s'))"

section \<open>Expectations\<close>

text \<open>
  An \<^verbatim>\<open>Expectation\<close> object. \<^verbatim>\<open>execOne\<close> compares expectations by identity
  (\<^verbatim>\<open>exp !== expectation\<close>), so every object carries the identity \<open>oid\<close> it was given
  when \<^verbatim>\<open>new\<close> created it. \<open>process\<close> names the handler closure; what calling it does
  is given by the interpreter passed to \<^verbatim>\<open>exec\<close>.
\<close>

record ('m, 'p) Expectation =
  oid :: nat
  match :: "'m \<Rightarrow> bool"
  process :: 'p

text \<open>\<open>allocated\<close> counts the \<^verbatim>\<open>Expectation\<close> objects created so far; it is the next identity.\<close>

record ('m, 'p) Expectations =
  expectationsOnce :: "('m, 'p) Expectation list"
  expectationsWhenever :: "('m, 'p) Expectation list"
  allocated :: nat

definition new_Expectations :: "('m, 'p) Expectations" where
  "new_Expectations = \<lparr>expectationsOnce = [], expectationsWhenever = [], allocated = 0\<rparr>"

definition once :: "('m \<Rightarrow> bool) \<Rightarrow> 'p \<Rightarrow> ('m, 'p) Expectations \<Rightarrow> ('m, 'p) Expectations" where
  "once m p r =
     r\<lparr>expectationsOnce := expectationsOnce r @ [\<lparr>oid = allocated r, match = m, process = p\<rparr>],
       allocated := Suc (allocated r)\<rparr>"

definition whenever :: "('m \<Rightarrow> bool) \<Rightarrow> 'p \<Rightarrow> ('m, 'p) Expectations \<Rightarrow> ('m, 'p) Expectations" where
  "whenever m p r =
     r\<lparr>expectationsWhenever := expectationsWhenever r @ [\<lparr>oid = allocated r, match = m, process = p\<rparr>],
       allocated := Suc (allocated r)\<rparr>"

definition execOne ::
  "('s, ('m, 'p) Expectations) objref \<Rightarrow> ('p \<Rightarrow> 'm \<Rightarrow> 's \<Rightarrow> 'e + 's) \<Rightarrow> 'm \<Rightarrow> 's \<Rightarrow> 'e + bool \<times> 's" where
  "execOne this run msg s =
     (case find (\<lambda>exp. match exp msg) (expectationsOnce (deref this s)) of
        None \<Rightarrow> Inr (False, s)
      | Some expectation \<Rightarrow>
          (let s1 = assign this
                      ((deref this s)\<lparr>expectationsOnce :=
                         filter (\<lambda>exp. oid exp \<noteq> oid expectation) (expectationsOnce (deref this s))\<rparr>) s
           in case run (process expectation) msg s1 of
                Inl e \<Rightarrow> Inl e
              | Inr s2 \<Rightarrow> Inr (True, s2)))"

definition execWhenever ::
  "('s, ('m, 'p) Expectations) objref \<Rightarrow> ('p \<Rightarrow> 'm \<Rightarrow> 's \<Rightarrow> 'e + 's) \<Rightarrow> 'm \<Rightarrow> 's \<Rightarrow> 'e + bool \<times> 's" where
  "execWhenever this run msg s =
     (let expIdx = findIndex (\<lambda>exp. match exp msg) (expectationsWhenever (deref this s))
      in if expIdx = -1 then Inr (False, s)
         else (case run (process (expectationsWhenever (deref this s) ! nat expIdx)) msg s of
                 Inl e \<Rightarrow> Inl e
               | Inr s1 \<Rightarrow> Inr (True, s1)))"

text \<open>\<^verbatim>\<open>return this.execOne(msg) || this.execWhenever(msg)\<close>.\<close>

definition exec ::
  "('s, ('m, 'p) Expectations) objref \<Rightarrow> ('p \<Rightarrow> 'm \<Rightarrow> 's \<Rightarrow> 'e + 's) \<Rightarrow> 'm \<Rightarrow> 's \<Rightarrow> 'e + bool \<times> 's" where
  "exec this run msg s =
     (case execOne this run msg s of
        Inl e \<Rightarrow> Inl e
      | Inr (consumed, s1) \<Rightarrow> if consumed then Inr (True, s1) else execWhenever this run msg s1)"

section \<open>BfxApi: data\<close>

text \<open>
  What the controller is given by its host: the two entries of \<^verbatim>\<open>config.json\<close> it reads
  and the built-in JSON codec. \<^verbatim>\<open>JSON.parse\<close> throws a \<^verbatim>\<open>SyntaxError\<close> on text that is
  not JSON, which is \<open>None\<close> here.
\<close>

record host =
  BitfinexAPIVersions :: "json list"
  BitfinexDefaultAPIUrl :: string
  JSON_parse :: "string \<Rightarrow> json option"
  JSON_stringify :: "json \<Rightarrow> string"

datatype js_error = SyntaxError | TypeError

text \<open>
  The transport is the \<^verbatim>\<open>ws\<close> package, outside the repository. The controller reads
  \<^verbatim>\<open>readyState\<close> and calls \<^verbatim>\<open>send\<close> and \<^verbatim>\<open>close\<close>. The data handed to
  \<^verbatim>\<open>ws.send\<close> is recorded in the field \<open>wire\<close> of the controller state, in call order.
\<close>

datatype ReadyState = CONNECTING | OPEN | CLOSING | CLOSED

record WebSocket =
  wsUrl :: string
  readyState :: ReadyState

text \<open>\<^verbatim>\<open>ws.close()\<close>: a closed socket stays closed, any other starts closing.\<close>

definition ws_close :: "WebSocket \<Rightarrow> WebSocket" where
  "ws_close w = (if readyState w = CLOSED then w else w\<lparr>readyState := CLOSING\<rparr>)"

text \<open>
  The closures of \<^verbatim>\<open>BfxApi.ts\<close>, one constructor each with the variables the closure
  captures: the handlers passed to \<^verbatim>\<open>once\<close> and \<^verbatim>\<open>whenever\<close>, and the deferred action
  \<^verbatim>\<open>this.send.bind(this, data)\<close>. A promise is named by its position in \<open>promises\<close>, a
  caller's callback function by a number.
\<close>

datatype proc =
    VersionCheck  \<comment> \<open>the handler \<^verbatim>\<open>connect\<close> registers\<close>
  | PongLog  \<comment> \<open>the handler \<^verbatim>\<open>ping\<close> registers\<close>
  | UnsubscribedResolve nat  \<comment> \<open>\<^verbatim>\<open>(msg) => resolve(msg)\<close> of \<^verbatim>\<open>unsubscribe\<close>, with its promise\<close>
  | SubscribedAck nat nat  \<comment> \<open>the handler \<^verbatim>\<open>subscribe\<close> registers, with the callback and its promise\<close>
  | SnapshotCallback nat  \<comment> \<open>\<^verbatim>\<open>(msg) => callback(msg)\<close>, with the callback\<close>
  | Heartbeating  \<comment> \<open>\<^verbatim>\<open>heartbeating\<close> of \<^verbatim>\<open>subscribe\<close>\<close>

datatype action = SendBound json

datatype promise = Pending | Fulfilled json | Rejected js_error

text \<open>The \<^verbatim>\<open>callback\<close> argument as a JavaScript value: a function or anything else.\<close>

datatype callback = Function nat | NotAFunction jsval

datatype level = DEBUG | LOG | ERROR

record ISubscribeParams =
  symbol :: string
  prec :: "string option"
  key :: "string option"

record IBfxApiParameters =
  p_apiKey :: "string option"
  p_apiSecret :: "string option"
  p_url :: "string option"

text \<open>
  The fields of the class, followed by what the controller does to the outside: the
  promises it has created, the data given to the transport, the logger calls and the
  calls of subscribers' callbacks. The logger is taken to have the three methods
  \<^verbatim>\<open>debug\<close>, \<^verbatim>\<open>log\<close> and \<^verbatim>\<open>error\<close>, as the default \<^verbatim>\<open>console\<close> has. A subscriber's
  callback is code of the caller: it is taken to return and not to call the controller.
\<close>

record BfxApi =
  apiKey :: "string option"
  apiSecret :: "string option"
  url :: string
  paused :: bool
  resumeStack :: "action ActionsStack"
  pingCounter :: int
  expectations :: "(json, proc) Expectations"
  ws :: "WebSocket option"
  promises :: "promise list"
  wire :: "string list"
  console :: "(level \<times> string \<times> jsval list) list"
  callbackCalls :: "(nat \<times> json) list"

text \<open>An exception carries the state at the moment it is thrown.\<close>

type_synonym 'a outcome = "js_error \<times> BfxApi + 'a"

definition this_resumeStack :: "(BfxApi, action ActionsStack) objref" where
  "this_resumeStack = \<lparr>deref = resumeStack, assign = (\<lambda>q s. s\<lparr>resumeStack := q\<rparr>)\<rparr>"

definition this_expectations :: "(BfxApi, (json, proc) Expectations) objref" where
  "this_expectations = \<lparr>deref = expectations, assign = (\<lambda>r s. s\<lparr>expectations := r\<rparr>)\<rparr>"

definition debug :: "string \<Rightarrow> jsval list \<Rightarrow> BfxApi \<Rightarrow> BfxApi" where
  "debug t args s = s\<lparr>console := console s @ [(DEBUG, t, args)]\<rparr>"

definition log :: "string \<Rightarrow> jsval list \<Rightarrow> BfxApi \<Rightarrow> BfxApi" where
  "log t args s = s\<lparr>console := console s @ [(LOG, t, args)]\<rparr>"

definition error :: "string \<Rightarrow> jsval list \<Rightarrow> BfxApi \<Rightarrow> BfxApi" where
  "error t args s = s\<lparr>console := console s @ [(ERROR, t, args)]\<rparr>"

text \<open>Settling a promise; a settled promise ignores further calls.\<close>

definition resolve :: "nat \<Rightarrow> json \<Rightarrow> BfxApi \<Rightarrow> BfxApi" where
  "resolve pid v s =
     (if pid < length (promises s) \<and> promises s ! pid = Pending
      then s\<lparr>promises := (promises s)[pid := Fulfilled v]\<rparr> else s)"

definition reject_promise :: "nat \<Rightarrow> js_error \<Rightarrow> BfxApi \<Rightarrow> BfxApi" where
  "reject_promise pid e s =
     (if pid < length (promises s) \<and> promises s ! pid = Pending
      then s\<lparr>promises := (promises s)[pid := Rejected e]\<rparr> else s)"

section \<open>BfxApi: predicates\<close>

definition MatchHeartbeat :: "jsval \<Rightarrow> json \<Rightarrow> bool" where
  "MatchHeartbeat chanId msg \<longleftrightarrow>
     js_eq (elem0 msg) chanId \<and> js_eq (elem1 msg) (Some (JString ''hb''))"

definition MatchSnapshot :: "jsval \<Rightarrow> json \<Rightarrow> bool" where
  "MatchSnapshot chanId msg \<longleftrightarrow>
     js_eq (elem0 msg) chanId \<and> \<not> js_eq (elem1 msg) (Some (JString ''hb''))"

text \<open>\<^verbatim>\<open>(msg) => msg.event === 'info' && msg.version\<close>, read for its truthiness.\<close>

definition connect_match :: "json \<Rightarrow> bool" where
  "connect_match msg \<longleftrightarrow>
     js_eq (get_prop ''event'' msg) (Some (JString ''info'')) \<and> truthy (get_prop ''version'' msg)"

definition ping_match :: "int \<Rightarrow> json \<Rightarrow> bool" where
  "ping_match cid msg \<longleftrightarrow>
     js_eq (get_prop ''event'' msg) (Some (JString ''pong''))
     \<and> js_eq (get_prop ''cid'' msg) (Some (JNumber cid))"

definition unsubscribe_match :: "int \<Rightarrow> json \<Rightarrow> bool" where
  "unsubscribe_match chanId msg \<longleftrightarrow>
     js_eq (get_prop ''event'' msg) (Some (JString ''unsubscribed''))
     \<and> js_eq (get_prop ''chanId'' msg) (Some (JNumber chanId))"

definition subscribe_match :: "string \<Rightarrow> json \<Rightarrow> bool" where
  "subscribe_match pair msg \<longleftrightarrow>
     js_eq (get_prop ''event'' msg) (Some (JString ''subscribed''))
     \<and> truthy (get_prop ''pair'' msg)
     \<and> js_eq (get_prop ''pair'' msg) (Some (JString pair))"

section \<open>BfxApi: methods\<close>

definition new_BfxApi :: "host \<Rightarrow> IBfxApiParameters \<Rightarrow> BfxApi" where
  "new_BfxApi H params =
     \<lparr>apiKey = p_apiKey params,
      apiSecret = p_apiSecret params,
      url = (case p_url params of None \<Rightarrow> BitfinexDefaultAPIUrl H | Some u \<Rightarrow> u),
      paused = True,
      resumeStack = new_ActionsStack,
      pingCounter = 0,
      expectations = new_Expectations,
      ws = None,
      promises = [],
      wire = [],
      console = [],
      callbackCalls = []\<rparr>"

definition send :: "host \<Rightarrow> json \<Rightarrow> BfxApi \<Rightarrow> BfxApi" where
  "send H data s =
     (if paused s \<or> (case ws s of None \<Rightarrow> True | Some w \<Rightarrow> readyState w \<noteq> OPEN)
      then s\<lparr>resumeStack := snd (add (SendBound data) (resumeStack s))\<rparr>
      else (let data' = (case data of JString t \<Rightarrow> t | _ \<Rightarrow> JSON_stringify H data)
            in s\<lparr>wire := wire s @ [data']\<rparr>))"

text \<open>Calling a deferred action: \<^verbatim>\<open>this.send.bind(this, data)()\<close>.\<close>

fun call_action :: "host \<Rightarrow> action \<Rightarrow> BfxApi \<Rightarrow> BfxApi outcome" where
  "call_action H (SendBound data) s = Inr (send H data s)"

definition pause :: "BfxApi \<Rightarrow> BfxApi" where
  "pause s = (debug ''pause'' [] s)\<lparr>paused := True\<rparr>"

definition resume :: "host \<Rightarrow> BfxApi \<Rightarrow> BfxApi outcome" where
  "resume H s = fire this_resumeStack (call_action H) ((debug ''resume'' [] s)\<lparr>paused := False\<rparr>)"

text \<open>\<^verbatim>\<open>this.ws.close()\<close> on a controller that never connected is a \<^verbatim>\<open>TypeError\<close>.\<close>

definition close :: "BfxApi \<Rightarrow> BfxApi outcome" where
  "close s =
     (let s1 = log ''closing socket'' [] s
      in case ws s1 of
           None \<Rightarrow> Inl (TypeError, s1)
         | Some w \<Rightarrow> Inr (s1\<lparr>ws := Some (ws_close w)\<rparr>))"

definition auth :: "BfxApi \<Rightarrow> BfxApi" where
  "auth s = log ''auth not implemented'' [] s"

text \<open>
  \<^verbatim>\<open>connect\<close> registers the version check and replaces \<^verbatim>\<open>this.ws\<close> by a new socket,
  which starts in \<^verbatim>\<open>CONNECTING\<close>. The two callbacks it installs on the socket are the
  events \<open>OnMessage\<close> and \<open>OnOpen\<close> below.
\<close>

definition connect :: "BfxApi \<Rightarrow> BfxApi" where
  "connect s =
     (let s1 = debug ''connect'' [] s;
          s2 = s1\<lparr>expectations := once connect_match VersionCheck (expectations s1)\<rparr>
      in s2\<lparr>ws := Some \<lparr>wsUrl = url s2, readyState = CONNECTING\<rparr>\<rparr>)"

definition restart :: "BfxApi \<Rightarrow> BfxApi outcome" where
  "restart s =
     (case close (debug ''restart'' [] s) of
        Inl e \<Rightarrow> Inl e
      | Inr s1 \<Rightarrow> Inr (connect s1))"

text \<open>
  Calling a handler. \<open>Heartbeating\<close> destructures its argument as an array, which throws
  on a value that is not iterable.
\<close>

fun call_process :: "host \<Rightarrow> proc \<Rightarrow> json \<Rightarrow> BfxApi \<Rightarrow> BfxApi outcome" where
  "call_process H VersionCheck msg s =
     (let s1 = debug ''msg.version'' [get_prop ''version'' msg] s
      in if indexOf (BitfinexAPIVersions H) (get_prop ''version'' msg) = -1
         then (let s2 = error ''unexpected version'' [get_prop ''version'' msg] s1;
                   s3 = error ''closing socket'' [] s2
               in case ws s3 of
                    None \<Rightarrow> Inl (TypeError, s3)
                  | Some w \<Rightarrow> Inr (s3\<lparr>ws := Some (ws_close w)\<rparr>))
         else Inr s1)"
| "call_process H PongLog msg s = Inr (log ''proper ping/pong, ts is'' [get_prop ''ts'' msg] s)"
| "call_process H (UnsubscribedResolve pid) msg s = Inr (resolve pid msg s)"
| "call_process H (SubscribedAck cb pid) e s =
     (let s1 = s\<lparr>expectations :=
                  whenever (MatchSnapshot (get_prop ''chanId'' e)) (SnapshotCallback cb) (expectations s)\<rparr>;
          s2 = s1\<lparr>expectations :=
                  whenever (MatchHeartbeat (get_prop ''chanId'' e)) Heartbeating (expectations s1)\<rparr>
      in Inr (resolve pid e s2))"
| "call_process H (SnapshotCallback cb) msg s = Inr (s\<lparr>callbackCalls := callbackCalls s @ [(cb, msg)]\<rparr>)"
| "call_process H Heartbeating msg s =
     (if (case msg of JArray _ \<Rightarrow> True | JString _ \<Rightarrow> True | _ \<Rightarrow> False)
      then Inr (debug ''Heartbeating''
                  [Some (JObject (case elem0 msg of None \<Rightarrow> [] | Some c \<Rightarrow> [(''chanId'', c)]))] s)
      else Inl (TypeError, s))"

definition ping :: "host \<Rightarrow> BfxApi \<Rightarrow> BfxApi" where
  "ping H s =
     (let cid = pingCounter s + 1;
          s1 = s\<lparr>pingCounter := cid\<rparr>;
          s2 = s1\<lparr>expectations := once (ping_match cid) PongLog (expectations s1)\<rparr>
      in send H (JObject [(''cid'', JNumber cid), (''event'', JString ''ping'')]) s2)"

text \<open>\<^verbatim>\<open>unsubscribe\<close> and \<^verbatim>\<open>subscribe\<close> return the promise they create.\<close>

definition unsubscribe :: "host \<Rightarrow> int \<Rightarrow> BfxApi \<Rightarrow> nat \<times> BfxApi" where
  "unsubscribe H chanId s =
     (let s1 = send H (JObject [(''event'', JString ''unsubscribe''), (''chanId'', JNumber chanId)]) s;
          pid = length (promises s1);
          s2 = s1\<lparr>promises := promises s1 @ [Pending]\<rparr>
      in (pid, s2\<lparr>expectations :=
                   once (unsubscribe_match chanId) (UnsubscribedResolve pid) (expectations s2)\<rparr>))"

definition params_fields :: "ISubscribeParams \<Rightarrow> (string \<times> json) list" where
  "params_fields params =
     [(''symbol'', JString (symbol params))]
     @ (case prec params of None \<Rightarrow> [] | Some p \<Rightarrow> [(''prec'', JString p)])
     @ (case key params of None \<Rightarrow> [] | Some k \<Rightarrow> [(''key'', JString k)])"

definition subscribe ::
  "host \<Rightarrow> string \<Rightarrow> string \<Rightarrow> ISubscribeParams \<Rightarrow> callback \<Rightarrow> BfxApi \<Rightarrow> nat \<times> BfxApi" where
  "subscribe H channel pair params callback s =
     (let pid = length (promises s);
          s1 = s\<lparr>promises := promises s @ [Pending]\<rparr>
      in case callback of
           NotAFunction _ \<Rightarrow> (pid, reject_promise pid TypeError s1)
         | Function cb \<Rightarrow>
             (let s2 = s1\<lparr>expectations :=
                          once (subscribe_match pair) (SubscribedAck cb pid) (expectations s1)\<rparr>
              in (pid, send H (JObject ([(''event'', JString ''subscribe''),
                                         (''channel'', JString channel)] @ params_fields params)) s2)))"

definition processMsgInfo :: "host \<Rightarrow> json \<Rightarrow> BfxApi \<Rightarrow> BfxApi outcome" where
  "processMsgInfo H msg s =
     (let s1 = debug ''info message'' [Some msg] s;
          code = get_prop ''code'' msg
      in if js_eq code (Some (JNumber 20051)) then restart s1
         else if js_eq code (Some (JNumber 20060)) then Inr (pause s1)
         else if js_eq code (Some (JNumber 20061)) then resume H s1
         else Inr (log ''unknown info message code'' [code] s1))"

text \<open>
  \<^verbatim>\<open>handleMessage\<close>. For the message \<^verbatim>\<open>null\<close> the first property read throws: every
  predicate the controller registers starts by reading a property of the message, and so
  does \<^verbatim>\<open>handleMessage\<close> itself when both lists are empty.
\<close>

definition handleMessage :: "host \<Rightarrow> string \<Rightarrow> BfxApi \<Rightarrow> BfxApi outcome" where
  "handleMessage H rawMsg s =
     (case JSON_parse H rawMsg of
        None \<Rightarrow> Inl (SyntaxError, s)
      | Some msg \<Rightarrow>
          if msg = JNull then Inl (TypeError, s)
          else (case exec this_expectations (call_process H) msg s of
                  Inl e \<Rightarrow> Inl e
                | Inr (consumed, s1) \<Rightarrow>
                    if consumed then Inr s1
                    else if js_eq (get_prop ''event'' msg) (Some (JString ''info''))
                         then processMsgInfo H msg s1
                         else Inr (debug ''unprocessed message'' [Some msg] s1)))"

section \<open>The controller as a reactive system\<close>

text \<open>
  What can happen to a controller: a caller invokes a method, the socket opens
  (\<^verbatim>\<open>onopen\<close>, bound to \<^verbatim>\<open>resume\<close>), or a socket delivers a message (\<^verbatim>\<open>onmessage\<close>,
  bound to \<^verbatim>\<open>handleMessage\<close>). A message can arrive whatever the state of the current
  socket is: a socket that is closing still delivers what it has received, and a socket
  replaced by \<^verbatim>\<open>connect\<close> keeps its callbacks. An exception ends the run.
\<close>

datatype event =
    CallConnect
  | CallClose
  | CallAuth
  | CallPing
  | CallUnsubscribe int
  | CallSubscribe string string ISubscribeParams callback
  | CallSend json
  | OnOpen
  | OnMessage string

fun step :: "host \<Rightarrow> event \<Rightarrow> BfxApi \<Rightarrow> BfxApi outcome" where
  "step H CallConnect s = Inr (connect s)"
| "step H CallClose s = close s"
| "step H CallAuth s = Inr (auth s)"
| "step H CallPing s = Inr (ping H s)"
| "step H (CallUnsubscribe chanId) s = Inr (snd (unsubscribe H chanId s))"
| "step H (CallSubscribe channel pair params callback) s =
     Inr (snd (subscribe H channel pair params callback s))"
| "step H (CallSend data) s = Inr (send H data s)"
| "step H OnOpen s =
     (case ws s of
        None \<Rightarrow> Inr s
      | Some w \<Rightarrow> resume H (s\<lparr>ws := Some (w\<lparr>readyState := OPEN\<rparr>)\<rparr>))"
| "step H (OnMessage rawMsg) s = handleMessage H rawMsg s"

fun run_events :: "host \<Rightarrow> event list \<Rightarrow> BfxApi \<Rightarrow> BfxApi outcome" where
  "run_events H [] s = Inr s"
| "run_events H (ev # evs) s =
     (case step H ev s of Inl e \<Rightarrow> Inl e | Inr s' \<Rightarrow> run_events H evs s')"

fun state_of :: "BfxApi outcome \<Rightarrow> BfxApi" where
  "state_of (Inl (e, s)) = s"
| "state_of (Inr s) = s"

text \<open>
  The events that call \<^verbatim>\<open>resume\<close>: the socket opening, and an info message with code
  20061 (when the registry does not consume it).
\<close>

fun resume_trigger :: "host \<Rightarrow> event \<Rightarrow> bool" where
  "resume_trigger H OnOpen = True"
| "resume_trigger H (OnMessage rawMsg) =
     (case JSON_parse H rawMsg of
        None \<Rightarrow> False
      | Some msg \<Rightarrow> js_eq (get_prop ''event'' msg) (Some (JString ''info''))
                   \<and> js_eq (get_prop ''code'' msg) (Some (JNumber 20061)))"
| "resume_trigger H _ = False"

section \<open>Sample runs\<close>

text \<open>
  Concrete inputs on which the theorems below are instantiated: a host whose codec is
  given on the few texts and payloads these runs exchange, and controllers reached from
  the constructor by sequences of events.
\<close>

definition msg_pause :: json where
  "msg_pause = JObject [(''event'', JString ''info''), (''code'', JNumber 20060)]"

definition msg_resume :: json where
  "msg_resume = JObject [(''event'', JString ''info''), (''code'', JNumber 20061)]"

definition msg_pong :: json where
  "msg_pong = JObject [(''event'', JString ''pong''), (''cid'', JNumber 1), (''ts'', JNumber 100)]"

definition msg_subscribed :: json where
  "msg_subscribed =
     JObject [(''event'', JString ''subscribed''), (''pair'', JString ''BTCUSD''), (''chanId'', JNumber 5)]"

definition msg_hb :: json where
  "msg_hb = JArray [JNumber 5, JString ''hb'']"

definition msg_snapshot :: json where
  "msg_snapshot = JArray [JNumber 5, JArray [JNumber 100, JNumber 1]]"

definition payload_ping :: json where
  "payload_ping = JObject [(''cid'', JNumber 1), (''event'', JString ''ping'')]"

definition sample_parse :: "string \<Rightarrow> json option" where
  \<open>sample_parse rawMsg =
     (if rawMsg = ''{"event":"info","code":20060}'' then Some msg_pause
      else if rawMsg = ''{"event":"info","code":20061}'' then Some msg_resume
      else if rawMsg = ''{"event":"pong","cid":1,"ts":100}'' then Some msg_pong
      else None)\<close>

definition sample_stringify :: "json \<Rightarrow> string" where
  \<open>sample_stringify data = (if data = payload_ping then ''{"cid":1,"event":"ping"}'' else ''{}'')\<close>

definition sample_host :: host where
  "sample_host =
     \<lparr>BitfinexAPIVersions = [JNumber 2],
      BitfinexDefaultAPIUrl = ''wss://api.bitfinex.com/ws/2'',
      JSON_parse = sample_parse,
      JSON_stringify = sample_stringify\<rparr>"

definition sample_new :: BfxApi where
  "sample_new = new_BfxApi sample_host \<lparr>p_apiKey = None, p_apiSecret = None, p_url = None\<rparr>"

definition sample_connected :: BfxApi where
  "sample_connected = state_of (run_events sample_host [CallConnect, OnOpen] sample_new)"

definition sample_pinged :: BfxApi where
  "sample_pinged = state_of (run_events sample_host [CallConnect, OnOpen, CallPing] sample_new)"

text \<open>A registry with two pending once-expectations and one acknowledged subscription.\<close>

definition sample_registry :: "(json, proc) Expectations" where
  "sample_registry =
     whenever (MatchHeartbeat (Some (JNumber 5))) Heartbeating
       (whenever (MatchSnapshot (Some (JNumber 5))) (SnapshotCallback 0)
          (once (ping_match 1) PongLog
             (once connect_match VersionCheck new_Expectations)))"

definition sample_subscribed :: BfxApi where
  "sample_subscribed = sample_new\<lparr>expectations := sample_registry\<rparr>"

text \<open>Two subscriptions to the same pair, both still waiting for their acknowledgment.\<close>

definition sample_params :: ISubscribeParams where
  "sample_params = \<lparr>symbol = ''tBTCUSD'', prec = None, key = None\<rparr>"

definition sample_two_subscribes :: "nat \<times> BfxApi" where
  "sample_two_subscribes =
     subscribe sample_host ''trades'' ''BTCUSD'' sample_params (Function 1)
       (snd (subscribe sample_host ''ticker'' ''BTCUSD'' sample_params (Function 0)
               sample_connected))"

text \<open>A queue of numbered actions; running action \<open>n\<close> records \<open>n\<close> and enqueues \<open>n + 10\<close>.\<close>

record sample_runner =
  pending :: "nat ActionsStack"
  executed :: "nat list"

definition this_pending :: "(sample_runner, nat ActionsStack) objref" where
  "this_pending = \<lparr>deref = pending, assign = (\<lambda>q t. t\<lparr>pending := q\<rparr>)\<rparr>"

definition sample_run :: "nat \<Rightarrow> sample_runner \<Rightarrow> unit + sample_runner" where
  "sample_run n t = Inr (t\<lparr>executed := executed t @ [n], pending := snd (add (n + 10) (pending t))\<rparr>)"

section \<open>Unfolding the sample runs\<close>

lemmas sample_defs = sample_subscribed_def sample_registry_def sample_new_def new_BfxApi_def
  new_Expectations_def new_ActionsStack_def reject_def once_def whenever_def this_expectations_def
  sample_host_def

lemmas run_defs = sample_connected_def sample_pinged_def sample_new_def new_BfxApi_def
  new_Expectations_def new_ActionsStack_def reject_def add_def once_def whenever_def
  this_expectations_def this_resumeStack_def sample_host_def connect_def resume_def fire_def
  debug_def log_def error_def ping_def send_def close_def ws_close_def restart_def
  payload_ping_def sample_stringify_def sample_parse_def handleMessage_def processMsgInfo_def
  pause_def exec_def execOne_def execWhenever_def

lemmas msg_defs = msg_pause_def msg_resume_def msg_pong_def msg_subscribed_def msg_hb_def
  msg_snapshot_def

lemmas match_defs = connect_match_def ping_match_def unsubscribe_match_def subscribe_match_def
  MatchHeartbeat_def MatchSnapshot_def

section \<open>Dispatch of a message against the registry\<close>

lemma find_first:
  "xs = pre @ e # post \<Longrightarrow> \<forall>x\<in>set pre. \<not> P x \<Longrightarrow> P e \<Longrightarrow> find P xs = Some e"
  by (induction pre arbitrary: xs) auto

lemma find_none: "\<forall>x\<in>set xs. \<not> P x \<Longrightarrow> find P xs = None"
  by (induction xs) auto

lemma findIndex_none: "\<forall>x\<in>set xs. \<not> P x \<Longrightarrow> findIndex P xs = -1"
  by (induction xs) auto

lemma findIndex_first:
  "xs = pre @ e # post \<Longrightarrow> \<forall>x\<in>set pre. \<not> P x \<Longrightarrow> P e \<Longrightarrow> findIndex P xs = int (length pre)"
  by (induction pre arbitrary: xs) (auto simp: Let_def)

lemma filter_identity:
  "distinct (map oid xs) \<Longrightarrow> xs = pre @ e # post \<Longrightarrow>
   filter (\<lambda>exp. oid exp \<noteq> oid e) xs = pre @ post"
proof -
  assume d: "distinct (map oid xs)" and xs: "xs = pre @ e # post"
  have "\<forall>x\<in>set pre. oid x \<noteq> oid e" "\<forall>x\<in>set post. oid x \<noteq> oid e"
    using d unfolding xs by (auto simp: image_iff)
  then have "filter (\<lambda>exp. oid exp \<noteq> oid e) pre = pre"
    "filter (\<lambda>exp. oid exp \<noteq> oid e) post = post"
    by (simp_all add: filter_id_conv)
  then show ?thesis unfolding xs by simp
qed

lemma execOne_none:
  "\<forall>x\<in>set (expectationsOnce (deref this s)). \<not> match x msg \<Longrightarrow>
   execOne this run msg s = Inr (False, s)"
  by (simp add: execOne_def find_none)

lemma execWhenever_none:
  "\<forall>x\<in>set (expectationsWhenever (deref this s)). \<not> match x msg \<Longrightarrow>
   execWhenever this run msg s = Inr (False, s)"
  by (simp add: execWhenever_def findIndex_none)

lemma execOne_first:
  assumes "distinct (map oid (expectationsOnce (deref this s)))"
    and "expectationsOnce (deref this s) = pre @ e # post"
    and "\<forall>x\<in>set pre. \<not> match x msg" and "match e msg"
  shows "execOne this run msg s =
     (case run (process e) msg (assign this ((deref this s)\<lparr>expectationsOnce := pre @ post\<rparr>) s) of
        Inl err \<Rightarrow> Inl err | Inr s' \<Rightarrow> Inr (True, s'))"
proof -
  have f: "find (\<lambda>exp. match exp msg) (expectationsOnce (deref this s)) = Some e"
    using assms(2-4) by (intro find_first[where pre=pre and post=post]) auto
  have g: "filter (\<lambda>exp. oid exp \<noteq> oid e) (expectationsOnce (deref this s)) = pre @ post"
    using assms(1,2) by (rule filter_identity)
  show ?thesis by (simp add: execOne_def f g)
qed

lemma execWhenever_first:
  assumes "expectationsWhenever (deref this s) = pre @ e # post"
    and "\<forall>x\<in>set pre. \<not> match x msg" and "match e msg"
  shows "execWhenever this run msg s =
     (case run (process e) msg s of Inl err \<Rightarrow> Inl err | Inr s' \<Rightarrow> Inr (True, s'))"
proof -
  have f: "findIndex (\<lambda>exp. match exp msg) (expectationsWhenever (deref this s)) = int (length pre)"
    using assms by (intro findIndex_first[where post=post and e=e]) auto
  have g: "expectationsWhenever (deref this s) ! nat (int (length pre)) = e"
    by (simp add: assms(1))
  show ?thesis unfolding execWhenever_def f Let_def g by simp
qed

text \<open>
  Claim C8. A message that no entry of either list matches is not consumed: \<^verbatim>\<open>exec\<close>
  returns \<^verbatim>\<open>false\<close> and the program state, the two lists in it, is the one it was
  called in.
\<close>

theorem exec_unmatched:
  assumes "\<forall>exp\<in>set (expectationsOnce (deref this s)). \<not> match exp msg"
      and "\<forall>exp\<in>set (expectationsWhenever (deref this s)). \<not> match exp msg"
  shows "exec this run msg s = Inr (False, s)"
  using assms by (simp add: exec_def execOne_none execWhenever_none)

theorem exec_unmatched_witness:
  "exec this_expectations (call_process sample_host) msg_pause sample_subscribed
   = Inr (False, sample_subscribed)"
proof -
  have 1: "\<forall>exp\<in>set (expectationsOnce (deref this_expectations sample_subscribed)).
             \<not> match exp msg_pause"
    by (simp add: sample_defs msg_defs match_defs)
  have 2: "\<forall>exp\<in>set (expectationsWhenever (deref this_expectations sample_subscribed)).
             \<not> match exp msg_pause"
    by (simp add: sample_defs msg_defs match_defs)
  show ?thesis using exec_unmatched [OF 1 2] .
qed

text \<open>
  Claim C1. \<^verbatim>\<open>exec\<close> on any message and any two lists whose once-entries are distinct
  objects. If the once-list is \<open>pre @ e # post\<close> with \<open>e\<close> its first matching entry,
  the handler of \<open>e\<close> is called on the message in the state where the once-list is already
  \<open>pre @ post\<close>, and the result is \<^verbatim>\<open>true\<close>. If no once-entry matches and \<open>e\<close> is the
  first matching entry of the whenever-list, the handler of \<open>e\<close> is called in the
  unchanged state (the entry stays) and the result is \<^verbatim>\<open>true\<close>. If nothing matches the
  result is \<^verbatim>\<open>false\<close>. In each case at most one handler is called.
\<close>

theorem exec_dispatch:
  assumes "distinct (map oid (expectationsOnce (deref this s)))"
  shows "(\<forall>pre e post.
            expectationsOnce (deref this s) = pre @ e # post
            \<and> (\<forall>x\<in>set pre. \<not> match x msg) \<and> match e msg \<longrightarrow>
            exec this run msg s =
              (case run (process e) msg
                      (assign this ((deref this s)\<lparr>expectationsOnce := pre @ post\<rparr>) s) of
                 Inl err \<Rightarrow> Inl err | Inr s' \<Rightarrow> Inr (True, s')))
       \<and> (\<forall>pre e post.
            (\<forall>x\<in>set (expectationsOnce (deref this s)). \<not> match x msg)
            \<and> expectationsWhenever (deref this s) = pre @ e # post
            \<and> (\<forall>x\<in>set pre. \<not> match x msg) \<and> match e msg \<longrightarrow>
            exec this run msg s =
              (case run (process e) msg s of Inl err \<Rightarrow> Inl err | Inr s' \<Rightarrow> Inr (True, s')))
       \<and> ((\<forall>x\<in>set (expectationsOnce (deref this s)). \<not> match x msg)
          \<and> (\<forall>x\<in>set (expectationsWhenever (deref this s)). \<not> match x msg) \<longrightarrow>
            exec this run msg s = Inr (False, s))"
proof (intro conjI allI impI)
  fix pre e post
  assume a: "expectationsOnce (deref this s) = pre @ e # post
            \<and> (\<forall>x\<in>set pre. \<not> match x msg) \<and> match e msg"
  then show "exec this run msg s =
              (case run (process e) msg
                      (assign this ((deref this s)\<lparr>expectationsOnce := pre @ post\<rparr>) s) of
                 Inl err \<Rightarrow> Inl err | Inr s' \<Rightarrow> Inr (True, s'))"
    using execOne_first[OF assms, of pre e post msg run]
    by (auto simp: exec_def split: sum.splits)
next
  fix pre e post
  assume a: "(\<forall>x\<in>set (expectationsOnce (deref this s)). \<not> match x msg)
            \<and> expectationsWhenever (deref this s) = pre @ e # post
            \<and> (\<forall>x\<in>set pre. \<not> match x msg) \<and> match e msg"
  then show "exec this run msg s =
              (case run (process e) msg s of Inl err \<Rightarrow> Inl err | Inr s' \<Rightarrow> Inr (True, s'))"
    using execWhenever_first[of this s pre e post msg run]
    by (simp add: exec_def execOne_none)
next
  assume "(\<forall>x\<in>set (expectationsOnce (deref this s)). \<not> match x msg)
          \<and> (\<forall>x\<in>set (expectationsWhenever (deref this s)). \<not> match x msg)"
  then show "exec this run msg s = Inr (False, s)"
    by (simp add: exec_def execOne_none execWhenever_none)
qed

theorem exec_dispatch_witness:
  "exec this_expectations (call_process sample_host) msg_pong sample_subscribed =
     Inr (True, sample_subscribed
       \<lparr>expectations := (expectations sample_subscribed)
          \<lparr>expectationsOnce := [\<lparr>oid = 0, match = connect_match, process = VersionCheck\<rparr>]\<rparr>,
        console := [(LOG, ''proper ping/pong, ts is'', [Some (JNumber 100)])]\<rparr>)
   \<and> exec this_expectations (call_process sample_host) msg_hb sample_subscribed =
     Inr (True, sample_subscribed
       \<lparr>console := [(DEBUG, ''Heartbeating'', [Some (JObject [(''chanId'', JNumber 5)])])]\<rparr>)
   \<and> exec this_expectations (call_process sample_host) msg_pause sample_subscribed =
     Inr (False, sample_subscribed)"
proof -
  have d: "distinct (map oid (expectationsOnce (deref this_expectations sample_subscribed)))"
    by (simp add: sample_defs)
  note T = exec_dispatch [OF d, of _ "call_process sample_host"]
  have 1: "exec this_expectations (call_process sample_host) msg_pong sample_subscribed =
     Inr (True, sample_subscribed
       \<lparr>expectations := (expectations sample_subscribed)
          \<lparr>expectationsOnce := [\<lparr>oid = 0, match = connect_match, process = VersionCheck\<rparr>]\<rparr>,
        console := [(LOG, ''proper ping/pong, ts is'', [Some (JNumber 100)])]\<rparr>)"
    using T [of msg_pong, THEN conjunct1, rule_format,
        of "[\<lparr>oid = 0, match = connect_match, process = VersionCheck\<rparr>]"
           "\<lparr>oid = 1, match = ping_match 1, process = PongLog\<rparr>" "[]"]
    by (simp add: sample_defs msg_defs match_defs log_def)
  have 2: "exec this_expectations (call_process sample_host) msg_hb sample_subscribed =
     Inr (True, sample_subscribed
       \<lparr>console := [(DEBUG, ''Heartbeating'', [Some (JObject [(''chanId'', JNumber 5)])])]\<rparr>)"
    using T [of msg_hb, THEN conjunct2, THEN conjunct1, rule_format,
        of "[\<lparr>oid = 2, match = MatchSnapshot (Some (JNumber 5)), process = SnapshotCallback 0\<rparr>]"
           "\<lparr>oid = 3, match = MatchHeartbeat (Some (JNumber 5)), process = Heartbeating\<rparr>" "[]"]
    by (simp add: sample_defs msg_defs match_defs debug_def)
  have 3: "exec this_expectations (call_process sample_host) msg_pause sample_subscribed =
     Inr (False, sample_subscribed)"
    using T [of msg_pause, THEN conjunct2, THEN conjunct2]
    by (simp add: sample_defs msg_defs match_defs)
  show ?thesis using 1 2 3 by blast
qed

section \<open>Firing the deferred actions\<close>

lemma forEach_records:
  assumes "\<And>a t. \<exists>t'. run a t = Inr t' \<and> obs t' = obs t @ [a]"
  shows "\<exists>t'. forEach run xs t = Inr t' \<and> obs t' = obs t @ xs"
proof (induction xs arbitrary: t)
  case Nil
  show ?case by simp
next
  case (Cons x xs)
  obtain t1 where t1: "run x t = Inr t1" "obs t1 = obs t @ [x]"
    using assms by blast
  obtain t2 where t2: "forEach run xs t1 = Inr t2" "obs t2 = obs t1 @ xs"
    using Cons.IH by blast
  show ?case using t1 t2 by simp
qed

text \<open>
  Claim C9. Let every action, when it is called, append itself to a record \<open>obs\<close> of the
  calls made (and do anything else, enqueueing further actions included). Then
  \<^verbatim>\<open>fire\<close> returns, the calls it made are exactly the queue as it was when \<^verbatim>\<open>fire\<close>
  was called, in that order, and the queue is empty afterwards: what was enqueued
  meanwhile is cleared without having been called.
\<close>

theorem fire_snapshot:
  assumes lens: "\<And>q t. deref this (assign this q t) = q"
      and frame: "\<And>q t. obs (assign this q t) = obs t"
      and records: "\<And>a t. \<exists>t'. run a t = Inr t' \<and> obs t' = obs t @ [a]"
  shows "\<exists>s'. fire this run s = Inr s'
             \<and> obs s' = obs s @ stack (deref this s)
             \<and> stack (deref this s') = []"
proof -
  obtain t where t: "forEach run (stack (deref this s)) s = Inr t"
      "obs t = obs s @ stack (deref this s)"
    using forEach_records[of run obs, OF records] by blast
  show ?thesis
    by (simp add: fire_def t lens frame reject_def)
qed

theorem fire_snapshot_witness:
  "fire this_pending sample_run \<lparr>pending = \<lparr>stack = [1, 2]\<rparr>, executed = []\<rparr>
   = Inr \<lparr>pending = \<lparr>stack = []\<rparr>, executed = [1, 2]\<rparr>"
proof -
  have 1: "\<And>q t. deref this_pending (assign this_pending q t) = q"
    by (simp add: this_pending_def)
  have 2: "\<And>q t. executed (assign this_pending q t) = executed t"
    by (simp add: this_pending_def)
  have 3: "\<And>a t. \<exists>t'. sample_run a t = Inr t' \<and> executed t' = executed t @ [a]"
    by (simp add: sample_run_def)
  obtain s' where s': "fire this_pending sample_run \<lparr>pending = \<lparr>stack = [1, 2]\<rparr>, executed = []\<rparr> = Inr s'"
    "executed s' = executed \<lparr>pending = \<lparr>stack = [1, 2]\<rparr>, executed = []\<rparr>
        @ stack (deref this_pending \<lparr>pending = \<lparr>stack = [1, 2]\<rparr>, executed = []\<rparr>)"
    "stack (deref this_pending s') = []"
    using fire_snapshot [of this_pending executed sample_run, OF 1 2 3] by blast
  have "s' = \<lparr>pending = \<lparr>stack = []\<rparr>, executed = [1, 2]\<rparr>"
    using s'(2,3) by (cases s', simp add: this_pending_def) 
  then show ?thesis using s'(1) by simp
qed

section \<open>The send gate\<close>

lemma send_frame [simp]:
  "expectations (send H d s) = expectations s"
  "promises (send H d s) = promises s"
  "console (send H d s) = console s"
  "callbackCalls (send H d s) = callbackCalls s"
  "paused (send H d s) = paused s"
  "ws (send H d s) = ws s"
  by (simp_all add: send_def Let_def)

lemma send_paused: "paused s \<Longrightarrow> wire (send H d s) = wire s"
  by (simp add: send_def)

text \<open>
  Claim C4. \<^verbatim>\<open>send\<close> on any payload and any state. When \<open>paused\<close> is set, or there is
  no socket, or the socket is not \<^verbatim>\<open>OPEN\<close>, the call is appended to the queue as a
  deferred send of the same payload and nothing is given to the transport. Otherwise the
  queue is left alone and the transport is given the payload itself if it is a string
  and its serialization if it is not.
\<close>

theorem send_gate:
  "(paused s \<or> ws s = None \<or> (\<exists>w. ws s = Some w \<and> readyState w \<noteq> OPEN) \<longrightarrow>
      stack (resumeStack (send H data s)) = stack (resumeStack s) @ [SendBound data]
      \<and> wire (send H data s) = wire s)
   \<and> (\<not> (paused s \<or> ws s = None \<or> (\<exists>w. ws s = Some w \<and> readyState w \<noteq> OPEN)) \<longrightarrow>
      wire (send H data s) =
        wire s @ [case data of JString t \<Rightarrow> t | _ \<Rightarrow> JSON_stringify H data]
      \<and> resumeStack (send H data s) = resumeStack s)"
  by (auto simp: send_def add_def Let_def split: option.splits)

theorem send_gate_witness:
  "stack (resumeStack (send sample_host payload_ping sample_new)) = [SendBound payload_ping]
   \<and> wire (send sample_host payload_ping sample_new) = []
   \<and> wire (send sample_host payload_ping sample_connected) = [''{\"cid\":1,\"event\":\"ping\"}'']
   \<and> wire (send sample_host (JString ''ping'') sample_connected) = [''ping'']
   \<and> resumeStack (send sample_host payload_ping sample_connected) = \<lparr>stack = []\<rparr>"
  using send_gate [of sample_new sample_host payload_ping]
    send_gate [of sample_connected sample_host payload_ping]
    send_gate [of sample_connected sample_host "JString ''ping''"]
  by (simp add: run_defs)

section \<open>Sends deferred while paused\<close>

lemma sends_while_paused:
  "paused s \<Longrightarrow>
   fold (send H) ds s =
     s\<lparr>resumeStack := (resumeStack s)\<lparr>stack := stack (resumeStack s) @ map SendBound ds\<rparr>\<rparr>"
proof (induction ds arbitrary: s)
  case Nil
  then show ?case by simp
next
  case (Cons d ds)
  have p: "paused (send H d s)" using Cons.prems by (simp add: send_def)
  show ?case
    using Cons.prems by (simp add: Cons.IH [OF p]) (simp add: send_def add_def)
qed

lemma forEach_sends_when_open:
  assumes "\<not> paused t" and "ws t = Some w" and "readyState w = OPEN"
  shows "forEach (call_action H) xs t =
     Inr (t\<lparr>wire := wire t @ map (\<lambda>a. case a of SendBound d \<Rightarrow>
               (case d of JString x \<Rightarrow> x | _ \<Rightarrow> JSON_stringify H d)) xs\<rparr>)"
  using assms
proof (induction xs arbitrary: t)
  case Nil
  then show ?case by simp
next
  case (Cons a xs)
  obtain d where a: "a = SendBound d" by (cases a)
  define t1 where "t1 = send H d t"
  have t1: "t1 = t\<lparr>wire := wire t @ [case d of JString x \<Rightarrow> x | _ \<Rightarrow> JSON_stringify H d]\<rparr>"
    using Cons.prems by (simp add: t1_def send_def)
  have "\<not> paused t1" "ws t1 = Some w" using Cons.prems by (simp_all add: t1)
  from Cons.IH [OF this Cons.prems(3)] show ?case
    by (simp add: a t1_def [symmetric]) (simp add: t1)
qed

lemma resume_replays_when_open:
  assumes "ws s = Some w" and "readyState w = OPEN"
  shows "\<exists>s'. resume H s = Inr s'
     \<and> wire s' = wire s @ map (\<lambda>a. case a of SendBound d \<Rightarrow>
               (case d of JString x \<Rightarrow> x | _ \<Rightarrow> JSON_stringify H d)) (stack (resumeStack s))
     \<and> stack (resumeStack s') = [] \<and> \<not> paused s'"
proof -
  define t where "t = (debug ''resume'' [] s)\<lparr>paused := False\<rparr>"
  have "\<not> paused t" "ws t = Some w" using assms by (simp_all add: t_def debug_def)
  from forEach_sends_when_open [OF this assms(2), of H "stack (resumeStack t)"]
  show ?thesis
    by (simp add: resume_def fire_def this_resumeStack_def t_def [symmetric] reject_def)
       (simp add: t_def debug_def)
qed

text \<open>
  Claim C2. The lemmas above are the claim when the socket is \<^verbatim>\<open>OPEN\<close> at the moment of
  \<^verbatim>\<open>resume\<close>: sends made while paused are queued in call order, and \<^verbatim>\<open>resume\<close>
  transmits the queue in that order and empties it. The next theorem is a run where the
  socket is not \<^verbatim>\<open>OPEN\<close> at that moment. The controller connects, the socket opens, the
  server announces a pause (20060), the caller pings (the ping is queued), the caller
  closes the socket, and the server's resume notice (20061) arrives on the closing socket.
  \<^verbatim>\<open>fire\<close> calls the deferred send, the gate enqueues it again because the socket is not
  \<^verbatim>\<open>OPEN\<close>, and \<^verbatim>\<open>reject\<close> then clears the queue: the ping is neither transmitted nor
  queued any more.
\<close>

theorem queued_send_lost:
  "stack (resumeStack (state_of (run_events sample_host
      [CallConnect, OnOpen, OnMessage ''{\"event\":\"info\",\"code\":20060}'', CallPing]
      sample_new))) = [SendBound payload_ping]
   \<and> paused (state_of (run_events sample_host
      [CallConnect, OnOpen, OnMessage ''{\"event\":\"info\",\"code\":20060}'', CallPing]
      sample_new))
   \<and> stack (resumeStack (state_of (run_events sample_host
      [CallConnect, OnOpen, OnMessage ''{\"event\":\"info\",\"code\":20060}'', CallPing,
       CallClose, OnMessage ''{\"event\":\"info\",\"code\":20061}''] sample_new))) = []
   \<and> wire (state_of (run_events sample_host
      [CallConnect, OnOpen, OnMessage ''{\"event\":\"info\",\"code\":20060}'', CallPing,
       CallClose, OnMessage ''{\"event\":\"info\",\"code\":20061}''] sample_new)) = []
   \<and> \<not> paused (state_of (run_events sample_host
      [CallConnect, OnOpen, OnMessage ''{\"event\":\"info\",\"code\":20060}'', CallPing,
       CallClose, OnMessage ''{\"event\":\"info\",\"code\":20061}''] sample_new))"
  by (simp add: run_defs msg_defs match_defs)

section \<open>Restart\<close>

text \<open>
  Claim C3, as stated, fails. A controller that has connected and pinged is restarted:
  the once-list afterwards holds the first version check, the pending pong expectation
  and the new version check, and a pong arriving after the restart is still consumed by
  the pong expectation registered before it.
\<close>

theorem restart_discards_counterexample:
  "map process (expectationsOnce (expectations (state_of (restart sample_pinged))))
     = [VersionCheck, PongLog, VersionCheck]
   \<and> handleMessage sample_host ''{\"event\":\"pong\",\"cid\":1,\"ts\":100}''
        (state_of (restart sample_pinged))
     = Inr ((state_of (restart sample_pinged))
         \<lparr>expectations := (expectations (state_of (restart sample_pinged)))
            \<lparr>expectationsOnce :=
               [\<lparr>oid = 0, match = connect_match, process = VersionCheck\<rparr>,
                \<lparr>oid = 2, match = connect_match, process = VersionCheck\<rparr>]\<rparr>,
          console := console (state_of (restart sample_pinged))
            @ [(LOG, ''proper ping/pong, ts is'', [Some (JNumber 100)])]\<rparr>)"
  by (simp add: run_defs msg_defs match_defs)

text \<open>
  Claim C3, amended. \<^verbatim>\<open>restart\<close> on a controller that has a socket returns, and it keeps
  the registry: the whenever-list is unchanged and the once-list is the one before with
  the version check of the new \<^verbatim>\<open>connect\<close> appended.
\<close>

theorem restart_keeps_registry:
  assumes "ws s = Some w"
  shows "\<exists>s'. restart s = Inr s'
     \<and> expectationsOnce (expectations s') =
         expectationsOnce (expectations s)
         @ [\<lparr>oid = allocated (expectations s), match = connect_match, process = VersionCheck\<rparr>]
     \<and> expectationsWhenever (expectations s') = expectationsWhenever (expectations s)"
  using assms
  by (simp add: restart_def close_def connect_def debug_def log_def once_def Let_def)

theorem restart_keeps_registry_witness:
  "\<exists>s'. restart sample_pinged = Inr s'
     \<and> expectationsOnce (expectations s') =
         [\<lparr>oid = 0, match = connect_match, process = VersionCheck\<rparr>,
          \<lparr>oid = 1, match = ping_match 1, process = PongLog\<rparr>,
          \<lparr>oid = 2, match = connect_match, process = VersionCheck\<rparr>]
     \<and> expectationsWhenever (expectations s') = []"
proof -
  have h: "ws sample_pinged = Some \<lparr>wsUrl = ''wss://api.bitfinex.com/ws/2'', readyState = OPEN\<rparr>"
    by (simp add: run_defs)
  have e: "expectationsOnce (expectations sample_pinged) =
         [\<lparr>oid = 0, match = connect_match, process = VersionCheck\<rparr>,
          \<lparr>oid = 1, match = ping_match 1, process = PongLog\<rparr>]"
     "expectationsWhenever (expectations sample_pinged) = []"
     "allocated (expectations sample_pinged) = 2"
    by (simp_all add: run_defs)
  show ?thesis using restart_keeps_registry [OF h] by (simp add: e)
qed

section \<open>Subscribing\<close>

lemma execOne_first_any:
  assumes "expectationsOnce (deref this s) = pre @ e # post"
    and "\<forall>x\<in>set pre. \<not> match x msg" and "match e msg"
  shows "execOne this run msg s =
     (case run (process e) msg
        (assign this ((deref this s)\<lparr>expectationsOnce :=
           filter (\<lambda>exp. oid exp \<noteq> oid e) (expectationsOnce (deref this s))\<rparr>) s) of
        Inl err \<Rightarrow> Inl err | Inr s' \<Rightarrow> Inr (True, s'))"
proof -
  have f: "find (\<lambda>exp. match exp msg) (expectationsOnce (deref this s)) = Some e"
    using assms by (intro find_first[where pre=pre and post=post]) auto
  show ?thesis by (simp add: execOne_def f)
qed

text \<open>
  Claim C7. \<^verbatim>\<open>subscribe\<close> with a callback that is not a function returns a promise that
  is already rejected with a \<^verbatim>\<open>TypeError\<close>; the registry, the queue and the data given to
  the transport are unchanged, and so is every other field but the list of promises.
\<close>

theorem subscribe_not_function:
  "(case subscribe H channel pair params (NotAFunction v) s of
      (p, s') \<Rightarrow>
        p = length (promises s)
        \<and> promises s' = promises s @ [Rejected TypeError]
        \<and> expectations s' = expectations s
        \<and> resumeStack s' = resumeStack s
        \<and> wire s' = wire s
        \<and> s' = s\<lparr>promises := promises s'\<rparr>)"
  by (simp add: subscribe_def reject_promise_def Let_def nth_append)

theorem subscribe_not_function_witness:
  "subscribe sample_host ''ticker'' ''BTCUSD'' sample_params (NotAFunction None) sample_connected
   = (0, sample_connected\<lparr>promises := [Rejected TypeError]\<rparr>)"
proof -
  obtain p s' where r: "subscribe sample_host ''ticker'' ''BTCUSD'' sample_params
      (NotAFunction None) sample_connected = (p, s')"
    by fastforce
  have e: "promises sample_connected = []"
    by (simp add: run_defs)
  have T: "p = length (promises sample_connected)
        \<and> promises s' = promises sample_connected @ [Rejected TypeError]
        \<and> expectations s' = expectations sample_connected
        \<and> resumeStack s' = resumeStack sample_connected
        \<and> wire s' = wire sample_connected
        \<and> s' = sample_connected\<lparr>promises := promises s'\<rparr>"
    by (rule subscribe_not_function [where H = sample_host and channel = "''ticker''"
      and pair = "''BTCUSD''" and params = sample_params and v = None and s = sample_connected,
      unfolded r prod.case])
  have a: "p = 0" and b: "promises s' = [Rejected TypeError]"
    using T e by auto
  have c: "s' = sample_connected\<lparr>promises := promises s'\<rparr>"
    using T by blast
  have "s' = sample_connected\<lparr>promises := [Rejected TypeError]\<rparr>"
    using b c by metis
  then show ?thesis using a by (simp add: r)
qed

text \<open>
  Claim C5, as stated, fails for a \<^verbatim>\<open>subscribe\<close> call made while an earlier subscription
  to the same pair still waits for its acknowledgment: the acknowledgment is consumed by
  the earlier expectation, the promise returned by the later call stays pending and the
  channel is bound to the earlier callback.
\<close>

theorem subscribe_second_counterexample:
  "\<not> isl (exec this_expectations (call_process sample_host) msg_subscribed
            (snd sample_two_subscribes))
   \<and> promises (snd (projr (exec this_expectations (call_process sample_host) msg_subscribed
                             (snd sample_two_subscribes))))
       ! fst sample_two_subscribes = Pending
   \<and> map process (expectationsWhenever (expectations
         (snd (projr (exec this_expectations (call_process sample_host) msg_subscribed
                        (snd sample_two_subscribes))))))
       = [SnapshotCallback 0, Heartbeating]"
  by (simp add: sample_two_subscribes_def sample_params_def subscribe_def params_fields_def
      resolve_def run_defs msg_defs match_defs)

text \<open>
  Claim C5, amended. \<^verbatim>\<open>subscribe\<close> for the pair BTCUSD with a function as callback, in a
  state where no once-expectation already registered matches the acknowledgment or the
  two channel messages, and no whenever-expectation already registered matches the two
  channel messages. Dispatching the acknowledgment fulfils the returned promise with it
  and appends two whenever-expectations for channel 5, the snapshot one first. Then
  dispatching the heartbeat logs it and calls no callback, and dispatching the snapshot
  calls the caller's callback on it.
\<close>

theorem subscribe_then_messages:
  assumes once_free: "\<forall>x\<in>set (expectationsOnce (expectations s)).
            \<not> match x msg_subscribed \<and> \<not> match x msg_hb \<and> \<not> match x msg_snapshot"
      and whenever_free: "\<forall>x\<in>set (expectationsWhenever (expectations s)).
            \<not> match x msg_hb \<and> \<not> match x msg_snapshot"
  shows "\<exists>s2 s3 s4.
      exec this_expectations (call_process H) msg_subscribed
        (snd (subscribe H channel ''BTCUSD'' params (Function cb) s)) = Inr (True, s2)
    \<and> promises s2 ! fst (subscribe H channel ''BTCUSD'' params (Function cb) s)
        = Fulfilled msg_subscribed
    \<and> expectationsWhenever (expectations s2) =
        expectationsWhenever (expectations s)
        @ [\<lparr>oid = Suc (allocated (expectations s)),
             match = MatchSnapshot (Some (JNumber 5)), process = SnapshotCallback cb\<rparr>,
           \<lparr>oid = Suc (Suc (allocated (expectations s))),
             match = MatchHeartbeat (Some (JNumber 5)), process = Heartbeating\<rparr>]
    \<and> exec this_expectations (call_process H) msg_hb s2 = Inr (True, s3)
    \<and> console s3 =
        console s2 @ [(DEBUG, ''Heartbeating'', [Some (JObject [(''chanId'', JNumber 5)])])]
    \<and> callbackCalls s3 = callbackCalls s2
    \<and> exec this_expectations (call_process H) msg_snapshot s3 = Inr (True, s4)
    \<and> callbackCalls s4 = callbackCalls s3 @ [(cb, msg_snapshot)]"
proof -
  define pid where "pid = length (promises s)"
  define ackE :: "(json, proc) Expectation" where
    "ackE = \<lparr>oid = allocated (expectations s), match = subscribe_match ''BTCUSD'',
             process = SubscribedAck cb pid\<rparr>"
  define snapE :: "(json, proc) Expectation" where
    "snapE = \<lparr>oid = Suc (allocated (expectations s)),
             match = MatchSnapshot (Some (JNumber 5)), process = SnapshotCallback cb\<rparr>"
  define hbE :: "(json, proc) Expectation" where
    "hbE = \<lparr>oid = Suc (Suc (allocated (expectations s))),
             match = MatchHeartbeat (Some (JNumber 5)), process = Heartbeating\<rparr>"
  define s1 where "s1 = snd (subscribe H channel ''BTCUSD'' params (Function cb) s)"
  have fst_sub: "fst (subscribe H channel ''BTCUSD'' params (Function cb) s) = pid"
    by (simp add: subscribe_def Let_def pid_def)
  have s1_once: "expectationsOnce (expectations s1) = expectationsOnce (expectations s) @ [ackE]"
    and s1_whenever: "expectationsWhenever (expectations s1) = expectationsWhenever (expectations s)"
    and s1_alloc: "allocated (expectations s1) = Suc (allocated (expectations s))"
    and s1_promises: "promises s1 = promises s @ [Pending]"
    by (simp_all add: s1_def subscribe_def Let_def once_def ackE_def pid_def)
  define rest where
    "rest = filter (\<lambda>exp. oid exp \<noteq> oid ackE) (expectationsOnce (expectations s1))"
  have rest_sub: "set rest \<subseteq> set (expectationsOnce (expectations s))"
    by (auto simp: rest_def s1_once)
  define s2 where
    "s2 = resolve pid msg_subscribed
       (s1\<lparr>expectations :=
            whenever (MatchHeartbeat (Some (JNumber 5))) Heartbeating
              (whenever (MatchSnapshot (Some (JNumber 5))) (SnapshotCallback cb)
                 ((expectations s1)\<lparr>expectationsOnce := rest\<rparr>))\<rparr>)"
  have ack_match: "match ackE msg_subscribed"
    by (simp add: ackE_def subscribe_match_def msg_subscribed_def)
  have one: "execOne this_expectations (call_process H) msg_subscribed s1 = Inr (True, s2)"
    using execOne_first_any [of this_expectations s1 "expectationsOnce (expectations s)" ackE "[]"
        msg_subscribed "call_process H"] once_free ack_match
    by (simp add: this_expectations_def s1_once ackE_def s2_def rest_def Let_def
        msg_subscribed_def)
  have e1: "exec this_expectations (call_process H) msg_subscribed s1 = Inr (True, s2)"
    by (simp add: exec_def one)
  have s2_once: "expectationsOnce (expectations s2) = rest"
    and s2_whenever: "expectationsWhenever (expectations s2) =
          expectationsWhenever (expectations s) @ [snapE, hbE]"
    and s2_promise: "promises s2 ! pid = Fulfilled msg_subscribed"
    by (simp_all add: s2_def resolve_def whenever_def s1_whenever s1_alloc snapE_def hbE_def
        s1_promises pid_def)
  define s3 where
    "s3 = debug ''Heartbeating'' [Some (JObject [(''chanId'', JNumber 5)])] s2"
  have no_once_hb: "\<forall>x\<in>set (expectationsOnce (deref this_expectations s2)). \<not> match x msg_hb"
    using once_free rest_sub by (auto simp: this_expectations_def s2_once)
  have w_hb: "execWhenever this_expectations (call_process H) msg_hb s2 = Inr (True, s3)"
    using execWhenever_first [of this_expectations s2
        "expectationsWhenever (expectations s) @ [snapE]" hbE "[]" msg_hb "call_process H"]
      whenever_free
    by (simp add: this_expectations_def s2_whenever snapE_def hbE_def MatchSnapshot_def
        MatchHeartbeat_def msg_hb_def s3_def)
  have e2: "exec this_expectations (call_process H) msg_hb s2 = Inr (True, s3)"
    by (simp add: exec_def execOne_none [OF no_once_hb] w_hb)
  have s3_once: "expectationsOnce (expectations s3) = rest"
    and s3_whenever: "expectationsWhenever (expectations s3) =
          expectationsWhenever (expectations s) @ [snapE, hbE]"
    and s3_console: "console s3 =
        console s2 @ [(DEBUG, ''Heartbeating'', [Some (JObject [(''chanId'', JNumber 5)])])]"
    and s3_calls: "callbackCalls s3 = callbackCalls s2"
    by (simp_all add: s3_def debug_def s2_once s2_whenever)
  define s4 where "s4 = s3\<lparr>callbackCalls := callbackCalls s3 @ [(cb, msg_snapshot)]\<rparr>"
  have no_once_snap: "\<forall>x\<in>set (expectationsOnce (deref this_expectations s3)). \<not> match x msg_snapshot"
    using once_free rest_sub by (auto simp: this_expectations_def s3_once)
  have w_snap: "execWhenever this_expectations (call_process H) msg_snapshot s3 = Inr (True, s4)"
    using execWhenever_first [of this_expectations s3
        "expectationsWhenever (expectations s)" snapE "[hbE]" msg_snapshot "call_process H"]
      whenever_free
    by (simp add: this_expectations_def s3_whenever snapE_def MatchSnapshot_def
        msg_snapshot_def s4_def)
  have e3: "exec this_expectations (call_process H) msg_snapshot s3 = Inr (True, s4)"
    by (simp add: exec_def execOne_none [OF no_once_snap] w_snap)
  have "callbackCalls s4 = callbackCalls s3 @ [(cb, msg_snapshot)]"
    by (simp add: s4_def)
  with e1 e2 e3 s2_promise s2_whenever s3_console s3_calls show ?thesis
    unfolding s1_def [symmetric] fst_sub snapE_def hbE_def by blast
qed

theorem subscribe_then_messages_witness:
  "\<exists>s2 s3 s4.
      exec this_expectations (call_process sample_host) msg_subscribed
        (snd (subscribe sample_host ''ticker'' ''BTCUSD''
                \<lparr>symbol = ''tBTCUSD'', prec = None, key = None\<rparr> (Function 0) sample_connected))
        = Inr (True, s2)
    \<and> promises s2 ! 0 = Fulfilled msg_subscribed
    \<and> expectationsWhenever (expectations s2) =
          [\<lparr>oid = 2, match = MatchSnapshot (Some (JNumber 5)), process = SnapshotCallback 0\<rparr>,
           \<lparr>oid = 3, match = MatchHeartbeat (Some (JNumber 5)), process = Heartbeating\<rparr>]
    \<and> exec this_expectations (call_process sample_host) msg_hb s2 = Inr (True, s3)
    \<and> console s3 =
        console s2 @ [(DEBUG, ''Heartbeating'', [Some (JObject [(''chanId'', JNumber 5)])])]
    \<and> callbackCalls s3 = callbackCalls s2
    \<and> exec this_expectations (call_process sample_host) msg_snapshot s3 = Inr (True, s4)
    \<and> callbackCalls s4 = callbackCalls s3 @ [(0, msg_snapshot)]"
proof -
  have 1: "\<forall>x\<in>set (expectationsOnce (expectations sample_connected)).
            \<not> match x msg_subscribed \<and> \<not> match x msg_hb \<and> \<not> match x msg_snapshot"
    by (simp add: run_defs msg_defs connect_match_def)
  have 2: "\<forall>x\<in>set (expectationsWhenever (expectations sample_connected)).
            \<not> match x msg_hb \<and> \<not> match x msg_snapshot"
    by (simp add: run_defs)
  have 3: "fst (subscribe sample_host ''ticker'' ''BTCUSD''
                \<lparr>symbol = ''tBTCUSD'', prec = None, key = None\<rparr> (Function 0) sample_connected) = 0"
    "expectationsWhenever (expectations sample_connected) = []"
    "allocated (expectations sample_connected) = 1"
    by (simp_all add: run_defs subscribe_def Let_def)
  show ?thesis
    using subscribe_then_messages [OF 1 2, of sample_host "''ticker''"
        "\<lparr>symbol = ''tBTCUSD'', prec = None, key = None\<rparr>" 0]
    by (simp add: 3 numeral_2_eq_2 numeral_3_eq_3)
qed

section \<open>Inbound messages\<close>

text \<open>
  Claim C10. On a payload that \<^verbatim>\<open>JSON.parse\<close> rejects, \<^verbatim>\<open>handleMessage\<close> throws the
  \<^verbatim>\<open>SyntaxError\<close> in the state it was called in: nothing was dispatched and no field
  has changed.
\<close>

theorem handleMessage_not_json:
  "JSON_parse H rawMsg = None \<Longrightarrow> handleMessage H rawMsg s = Inl (SyntaxError, s)"
  by (simp add: handleMessage_def)

theorem handleMessage_not_json_witness:
  "JSON_parse sample_host ''{oops'' = None
   \<and> handleMessage sample_host ''{oops'' sample_connected = Inl (SyntaxError, sample_connected)"
proof -
  have h: "JSON_parse sample_host ''{oops'' = None"
    by (simp add: sample_host_def sample_parse_def)
  show ?thesis using h handleMessage_not_json [OF h] by simp
qed

section \<open>Paused until resumed\<close>

lemma js_eq_number: "js_eq v (Some (JNumber n)) \<longleftrightarrow> v = Some (JNumber n)"
proof (cases v)
  case None
  then show ?thesis by simp
next
  case (Some a)
  then show ?thesis by (cases a) auto
qed

lemma ping_paused: "paused s \<Longrightarrow> paused (ping H s) \<and> wire (ping H s) = wire s"
  by (simp add: ping_def Let_def send_paused)

lemma unsubscribe_paused:
  "paused s \<Longrightarrow> paused (snd (unsubscribe H c s)) \<and> wire (snd (unsubscribe H c s)) = wire s"
  by (simp add: unsubscribe_def Let_def send_paused)

lemma subscribe_paused:
  "paused s \<Longrightarrow> paused (snd (subscribe H ch p ps cb s))
     \<and> wire (snd (subscribe H ch p ps cb s)) = wire s"
  by (cases cb) (simp_all add: subscribe_def Let_def send_paused reject_promise_def)

lemma close_keeps:
  "paused (state_of (close s)) = paused s \<and> wire (state_of (close s)) = wire s"
  by (simp add: close_def log_def Let_def split: option.splits)

lemma connect_keeps: "paused (connect s) = paused s \<and> wire (connect s) = wire s"
  by (simp add: connect_def debug_def Let_def)

lemma restart_frame:
  "paused (state_of (restart s)) = paused s \<and> wire (state_of (restart s)) = wire s"
  by (simp add: restart_def close_def log_def debug_def connect_def Let_def split: option.splits)

lemma call_process_keeps:
  "paused (state_of (call_process H p msg s)) = paused s
   \<and> wire (state_of (call_process H p msg s)) = wire s"
  by (cases p) (simp_all add: Let_def debug_def log_def error_def resolve_def split: option.splits)

lemma exec_keeps:
  "(case exec this_expectations (call_process H) msg s of
      Inl (e, s') \<Rightarrow> paused s' = paused s \<and> wire s' = wire s
    | Inr (b, s') \<Rightarrow> paused s' = paused s \<and> wire s' = wire s)"
proof -
  have k: "\<And>p t. case call_process H p msg t of
      Inl (e, s') \<Rightarrow> paused s' = paused t \<and> wire s' = wire t
    | Inr s' \<Rightarrow> paused s' = paused t \<and> wire s' = wire t"
    subgoal for p t using call_process_keeps [of H p msg t]
      by (cases "call_process H p msg t") auto
    done
  have one: "case execOne this_expectations (call_process H) msg s of
      Inl (e, s') \<Rightarrow> paused s' = paused s \<and> wire s' = wire s
    | Inr (b, s') \<Rightarrow> paused s' = paused s \<and> wire s' = wire s"
  proof (cases "find (\<lambda>exp. match exp msg) (expectationsOnce (expectations s))")
    case None
    then show ?thesis by (simp add: execOne_def this_expectations_def)
  next
    case (Some e)
    show ?thesis
      using k [where p = "process e" and t = "s\<lparr>expectations := (expectations s)\<lparr>expectationsOnce :=
           filter (\<lambda>exp. oid exp \<noteq> oid e) (expectationsOnce (expectations s))\<rparr>\<rparr>"]
      by (simp add: execOne_def this_expectations_def Some Let_def split: sum.splits prod.splits)
  qed
  have two: "\<And>t. case execWhenever this_expectations (call_process H) msg t of
      Inl (e, s') \<Rightarrow> paused s' = paused t \<and> wire s' = wire t
    | Inr (b, s') \<Rightarrow> paused s' = paused t \<and> wire s' = wire t"
    subgoal for t
      using k [where p = "process (expectationsWhenever (expectations t) !
          nat (findIndex (\<lambda>exp. match exp msg) (expectationsWhenever (expectations t))))" and t = t]
      by (simp add: execWhenever_def this_expectations_def Let_def split: sum.splits prod.splits)
    done
  show ?thesis
  proof (cases "execOne this_expectations (call_process H) msg s")
    case (Inl a)
    then show ?thesis using one by (simp add: exec_def)
  next
    case (Inr r)
    obtain b s1 where r: "r = (b, s1)" by (cases r)
    show ?thesis using one two [of s1] Inr r
      by (auto simp: exec_def split: sum.splits prod.splits)
  qed
qed

lemma handleMessage_keeps:
  assumes "\<not> resume_trigger H (OnMessage rawMsg)" and "paused s"
  shows "paused (state_of (handleMessage H rawMsg s))
     \<and> wire (state_of (handleMessage H rawMsg s)) = wire s"
proof (cases "JSON_parse H rawMsg")
  case None
  then show ?thesis using assms by (simp add: handleMessage_def)
next
  case (Some msg)
  show ?thesis
  proof (cases "msg = JNull")
    case True
    then show ?thesis using assms Some by (simp add: handleMessage_def)
  next
    case False
    have hm: "handleMessage H rawMsg s =
       (case exec this_expectations (call_process H) msg s of
             Inl e \<Rightarrow> Inl e
           | Inr (consumed, s1) \<Rightarrow>
               if consumed then Inr s1
               else if js_eq (get_prop ''event'' msg) (Some (JString ''info''))
                    then processMsgInfo H msg s1
                    else Inr (debug ''unprocessed message'' [Some msg] s1))"
      using Some False by (simp add: handleMessage_def)
    have nt: "js_eq (get_prop ''event'' msg) (Some (JString ''info'')) \<Longrightarrow>
        \<not> js_eq (get_prop ''code'' msg) (Some (JNumber 20061))"
      using assms(1) Some by simp
    have info: "\<And>t. paused t \<Longrightarrow> js_eq (get_prop ''event'' msg) (Some (JString ''info'')) \<Longrightarrow>
        paused (state_of (processMsgInfo H msg t))
        \<and> wire (state_of (processMsgInfo H msg t)) = wire t"
      subgoal for t
        using nt restart_frame [of "debug ''info message'' [Some msg] t"]
        by (simp add: processMsgInfo_def Let_def pause_def debug_def log_def)
      done
    show ?thesis
      using exec_keeps [where H = H and msg = msg and s = s] assms(2) info
      by (auto simp: hm debug_def split: sum.splits prod.splits)
  qed
qed

lemma step_keeps:
  assumes "\<not> resume_trigger H ev" and "paused s"
  shows "paused (state_of (step H ev s)) \<and> wire (state_of (step H ev s)) = wire s"
proof (cases ev)
  case (OnMessage rawMsg)
  then show ?thesis using assms handleMessage_keeps by simp
qed (use assms in \<open>simp_all add: connect_keeps close_keeps auth_def log_def ping_paused
      unsubscribe_paused subscribe_paused send_paused\<close>)

lemma run_events_keeps:
  assumes "\<forall>ev\<in>set evs. \<not> resume_trigger H ev" and "paused s"
  shows "paused (state_of (run_events H evs s)) \<and> wire (state_of (run_events H evs s)) = wire s"
  using assms
proof (induction evs arbitrary: s)
  case Nil
  then show ?case by simp
next
  case (Cons ev evs)
  have k: "paused (state_of (step H ev s)) \<and> wire (state_of (step H ev s)) = wire s"
    using Cons.prems by (intro step_keeps) auto
  show ?case
  proof (cases "step H ev s")
    case (Inl a)
    then show ?thesis using k by simp
  next
    case (Inr s')
    then show ?thesis using k Cons.IH [of s'] Cons.prems by simp
  qed
qed

text \<open>
  Claim C6. An info message with code 20060 that no expectation consumes leaves the
  controller paused. From there, along any sequence of events none of which is the
  socket opening or an info message with code 20061, the controller stays paused and
  nothing more is given to the transport, whatever is sent; this holds for the state
  reached at the end of the sequence or at the exception that ends it.
\<close>

theorem pause_holds_sends:
  assumes "JSON_parse H rawMsg = Some msg"
      and "js_eq (get_prop ''event'' msg) (Some (JString ''info''))"
      and "js_eq (get_prop ''code'' msg) (Some (JNumber 20060))"
      and "\<forall>x\<in>set (expectationsOnce (expectations s)). \<not> match x msg"
      and "\<forall>x\<in>set (expectationsWhenever (expectations s)). \<not> match x msg"
      and "\<forall>ev\<in>set evs. \<not> resume_trigger H ev"
  shows "\<exists>s1. handleMessage H rawMsg s = Inr s1 \<and> paused s1
           \<and> paused (state_of (run_events H evs s1))
           \<and> wire (state_of (run_events H evs s1)) = wire s1"
proof -
  have nn: "msg \<noteq> JNull" using assms(2) by auto
  have ex: "exec this_expectations (call_process H) msg s = Inr (False, s)"
    using assms(4,5)
    by (simp add: exec_def execOne_none execWhenever_none this_expectations_def)
  define s1 where "s1 = pause (debug ''info message'' [Some msg] s)"
  have h: "handleMessage H rawMsg s = Inr s1"
    using assms(1,2,3) nn
    by (simp add: handleMessage_def ex processMsgInfo_def Let_def s1_def js_eq_number)
  have p: "paused s1" by (simp add: s1_def pause_def)
  show ?thesis using h p run_events_keeps [OF assms(6) p] by blast
qed

theorem pause_holds_sends_witness:
  "\<exists>s1. handleMessage sample_host ''{\"event\":\"info\",\"code\":20060}'' sample_connected = Inr s1
        \<and> paused s1
        \<and> paused (state_of (run_events sample_host [CallPing, CallSend (JString ''ping'')] s1))
        \<and> wire (state_of (run_events sample_host [CallPing, CallSend (JString ''ping'')] s1))
            = wire s1"
proof -
  have 1: "JSON_parse sample_host ''{\"event\":\"info\",\"code\":20060}'' = Some msg_pause"
    by (simp add: sample_host_def sample_parse_def)
  have 2: "js_eq (get_prop ''event'' msg_pause) (Some (JString ''info''))"
    and 3: "js_eq (get_prop ''code'' msg_pause) (Some (JNumber 20060))"
    by (simp_all add: msg_pause_def)
  have 4: "\<forall>x\<in>set (expectationsOnce (expectations sample_connected)). \<not> match x msg_pause"
    and 5: "\<forall>x\<in>set (expectationsWhenever (expectations sample_connected)). \<not> match x msg_pause"
    by (simp_all add: run_defs msg_pause_def connect_match_def)
  have 6: "\<forall>ev\<in>set [CallPing, CallSend (JString ''ping'')]. \<not> resume_trigger sample_host ev"
    by simp
  show ?thesis using pause_holds_sends [OF 1 2 3 4 5 6] .
qed

end
